theory Spec2Isabelle
  imports Complex_Main
begin

section \<open>Strings\<close>

text \<open>
  A Python \<open>str\<close> is a sequence of Unicode code points and \<open>len\<close> counts code points, so
  a string is modelled as a list of code points.  \<open>py\<close> embeds an ASCII literal.
\<close>

type_synonym pychar = nat
type_synonym pystr = "pychar list"

definition py :: "string \<Rightarrow> pystr" where
  "py s = map of_char s"

text \<open>
  \<open>str.isspace\<close> of one code point: the characters \<open>str.strip()\<close> removes when it is
  called without an argument.
\<close>

definition py_isspace :: "pychar \<Rightarrow> bool" where
  "py_isspace c \<longleftrightarrow>
     (9 \<le> c \<and> c \<le> 13) \<or> (28 \<le> c \<and> c \<le> 32) \<or> c = 133 \<or> c = 160 \<or> c = 5760 \<or>
     (8192 \<le> c \<and> c \<le> 8202) \<or> c = 8232 \<or> c = 8233 \<or> c = 8239 \<or> c = 8287 \<or> c = 12288"

definition strip :: "pystr \<Rightarrow> pystr" where
  "strip s = rev (dropWhile py_isspace (rev (dropWhile py_isspace s)))"

section \<open>Content budgeting\<close>

text \<open>
  The exceptions that leave a function of the program: of the PDF reader, of the chat
  completion, and the \<open>ValueError\<close> of the tokenizer.
\<close>

datatype error = ExtractionError | GenerationError | ValueError

text \<open>
  \<open>tiktoken\<close> is an external library.  Its encoder is a parameter \<open>encode\<close> of the model,
  from a string to its list of token ids, or to the exception it raises:
  \<open>encoding.encode(content)\<close>, called as the program calls it, with the default
  \<open>disallowed_special="all"\<close>, raises \<open>ValueError\<close> on a text that holds a special token.
\<close>

type_synonym tokenizer = "pystr \<Rightarrow> error + nat list"

text \<open>The substring test \<open>sub in s\<close>, and the special tokens of \<open>cl100k_base\<close>.\<close>

fun contains :: "pystr \<Rightarrow> pystr \<Rightarrow> bool" where
  "contains [] sub = (sub = [])"
| "contains (x # xs) sub = (take (length sub) (x # xs) = sub \<or> contains xs sub)"

definition special_tokens :: "pystr list" where
  "special_tokens =
     [py ''<|endoftext|>'', py ''<|fim_prefix|>'', py ''<|fim_middle|>'', py ''<|fim_suffix|>'',
      py ''<|endofprompt|>'']"

text \<open>
  A tokenizer to run the model on: one token for each code point, and \<open>ValueError\<close> on
  a text that holds a special token.
\<close>

definition char_tokens :: tokenizer where
  "char_tokens s = (if list_ex (contains s) special_tokens then Inl ValueError else Inr s)"

definition max_length :: int where
  "max_length = 15000"

text \<open>
  The body of the loop of \<open>content_token_cut\<close>:
  \<^verbatim>\<open>new_length = int(len(content) * 0.9); content = content[:new_length]\<close>.
  The product is a double; \<open>0.9\<close> as a double lies just above nine tenths and the
  rounding error of the product is below one tenth for every length under \<open>10^15\<close>, so
  the truncated product is the integer \<open>9 * len div 10\<close> for every string that fits in
  memory.
\<close>

definition new_length :: "pystr \<Rightarrow> nat" where
  "new_length content = (length content * 9) div 10"

definition shrink :: "pystr \<Rightarrow> pystr" where
  "shrink content = take (new_length content) content"

text \<open>
  \<open>content_token_cut\<close>: the \<open>while\<close> loop has no bound of its own, so the model is a
  partial function and \<open>None\<close> stands for a loop that never exits.  A result \<open>Inl\<close> is
  an exception of \<open>encoding.encode\<close> on line 123, which leaves the function.
\<close>

partial_function (option) content_token_cut ::
  "tokenizer \<Rightarrow> pystr \<Rightarrow> int \<Rightarrow> int \<Rightarrow> (error + pystr) option" where
  "content_token_cut encode content num_tokens max_len =
     (if num_tokens > max_len
      then (case encode (shrink content) of
              Inl e \<Rightarrow> Some (Inl e)
            | Inr tokens \<Rightarrow>
                content_token_cut encode (shrink content) (int (length tokens)) max_len)
      else Some (Inr content))"

declare content_token_cut.simps [code]

text \<open>
  Lines 107 to 111 of \<open>pdfs_to_text_string\<close>, the budgeting step, with the module
  constant \<open>max_length\<close> as the argument \<open>max_len\<close>.  An exception of
  \<open>encoding.encode\<close> on line 108 leaves the function.
\<close>

definition fit_to_budget :: "tokenizer \<Rightarrow> pystr \<Rightarrow> int \<Rightarrow> (error + pystr) option" where
  "fit_to_budget encode content max_len =
     (case encode content of
        Inl e \<Rightarrow> Some (Inl e)
      | Inr tokens \<Rightarrow>
          (let num_tokens = int (length tokens)
           in if num_tokens > max_len
              then content_token_cut encode content num_tokens max_len
              else Some (Inr content)))"

definition placeholder :: pystr where
  "placeholder = py ''Content is empty or contains only whitespace.''"

text \<open>
  \<open>pdfs_to_text_string\<close>, from the page texts the PDF reader extracts (\<open>pages\<close> is
  \<open>[p.extract_text() for p in reader.pages]\<close>).
\<close>

definition pdfs_to_text_string :: "tokenizer \<Rightarrow> pystr list \<Rightarrow> (error + pystr) option" where
  "pdfs_to_text_string encode pages =
     (let content = (case pages of [] \<Rightarrow> [] | p # _ \<Rightarrow> p);
          content = (if strip content = [] then placeholder else content)
      in fit_to_budget encode content max_length)"

section \<open>Filename sanitizing\<close>

text \<open>
  The value of \<open>time.gmtime()\<close>, and \<open>time.strftime('%Y%m%d%H%M%S', t)\<close>: the year in
  decimal, then month, day, hour, minute and second, each zero-padded to two digits.
\<close>

record struct_time =
  tm_year :: nat
  tm_mon :: nat
  tm_mday :: nat
  tm_hour :: nat
  tm_min :: nat
  tm_sec :: nat

fun decimal :: "nat \<Rightarrow> pystr" where
  "decimal n = (if n < 10 then [48 + n] else decimal (n div 10) @ [48 + n mod 10])"

declare decimal.simps [simp del]

definition zero_pad :: "nat \<Rightarrow> pystr \<Rightarrow> pystr" where
  "zero_pad w s = replicate (w - length s) 48 @ s"

definition strftime :: "struct_time \<Rightarrow> pystr" where
  "strftime t =
     decimal (tm_year t) @ zero_pad 2 (decimal (tm_mon t)) @ zero_pad 2 (decimal (tm_mday t)) @
     zero_pad 2 (decimal (tm_hour t)) @ zero_pad 2 (decimal (tm_min t)) @
     zero_pad 2 (decimal (tm_sec t))"

text \<open>
  The ranges of the fields of a \<open>struct_time\<close> that \<open>time.gmtime()\<close> returns for the
  current time, in a year of four digits.
\<close>

definition gmtime_range :: "struct_time \<Rightarrow> bool" where
  "gmtime_range t \<longleftrightarrow>
     1000 \<le> tm_year t \<and> tm_year t \<le> 9999 \<and> 1 \<le> tm_mon t \<and> tm_mon t \<le> 12 \<and>
     1 \<le> tm_mday t \<and> tm_mday t \<le> 31 \<and> tm_hour t \<le> 23 \<and> tm_min t \<le> 59 \<and> tm_sec t \<le> 61"

text \<open>A clock reading to run the model on.\<close>

definition sample_time :: struct_time where
  "sample_time = \<lparr>tm_year = 2024, tm_mon = 3, tm_mday = 9, tm_hour = 17, tm_min = 5, tm_sec = 0\<rparr>"

text \<open>The character class \<open>[A-Za-z0-9_]\<close> and the class of decimal digits \<open>\d\<close> in ASCII.\<close>

definition name_char :: "pychar \<Rightarrow> bool" where
  "name_char c \<longleftrightarrow>
     (65 \<le> c \<and> c \<le> 90) \<or> (97 \<le> c \<and> c \<le> 122) \<or> (48 \<le> c \<and> c \<le> 57) \<or> c = 95"

definition digit_char :: "pychar \<Rightarrow> bool" where
  "digit_char c \<longleftrightarrow> 48 \<le> c \<and> c \<le> 57"

text \<open>
  \<open>validate_and_trim_filename\<close>.  The candidate is \<open>None\<close> or a string; \<open>now\<close> is what
  \<open>time.gmtime()\<close> returns when the fallback name is built.
  \<open>re.sub(r'[^A-Za-z0-9_]', '', s)\<close> deletes every code point outside the class.
\<close>

definition validate_and_trim_filename :: "struct_time \<Rightarrow> pystr option \<Rightarrow> pystr" where
  "validate_and_trim_filename now initial_filename =
     (case initial_filename of
        None \<Rightarrow> py ''empty_file_'' @ strftime now
      | Some s \<Rightarrow>
          if s = [] then py ''empty_file_'' @ strftime now
          else let cleaned_filename = filter name_char s
               in if cleaned_filename = [] then py ''empty_file_'' @ strftime now
                  else take 50 cleaned_filename)"

section \<open>Collision avoidance\<close>

text \<open>
  \<open>str.lower\<close> on the ASCII letters.  No code point outside ASCII has a lower case that
  ends in one of \<open>.\<close>, \<open>p\<close>, \<open>d\<close>, \<open>f\<close>, so the test \<open>f.lower().endswith(".pdf")\<close> is
  decided by this part of the mapping.
\<close>

definition lower :: "pystr \<Rightarrow> pystr" where
  "lower s = map (\<lambda>c. if 65 \<le> c \<and> c \<le> 90 then c + 32 else c) s"

definition endswith :: "pystr \<Rightarrow> pystr \<Rightarrow> bool" where
  "endswith s suffix \<longleftrightarrow> length suffix \<le> length s \<and> drop (length s - length suffix) s = suffix"

definition is_pdf :: "pystr \<Rightarrow> bool" where
  "is_pdf f \<longleftrightarrow> endswith (lower f) (py ''.pdf'')"

text \<open>
  Lines 84 to 86 of \<open>rename_pdfs_in_directory\<close>: the set of PDF names in the directory
  listing, and the suffix added on a collision.
\<close>

definition existing_pdfs :: "pystr list \<Rightarrow> pystr set" where
  "existing_pdfs listing = set (filter is_pdf listing)"

definition deduplicate :: "pystr \<Rightarrow> pystr set \<Rightarrow> pystr" where
  "deduplicate new_file_name existing =
     (if new_file_name @ py ''.pdf'' \<in> existing then new_file_name @ py ''_01''
      else new_file_name)"

section \<open>The directory loop\<close>

text \<open>
  The collaborators of \<open>rename_pdfs_in_directory\<close> are parameters of the model, over a
  state \<open>'w\<close> of the world outside the program: the directory listing, the file test and
  the modification time (only its order matters), the page texts the PDF reader extracts
  from a file, the reply of the chat completion to a prompt, the clock, and the rename,
  which gives the next state or \<open>None\<close> when it raises (the state is then unchanged).
  A collaborator that raises returns \<open>Inl\<close>.
\<close>

record 'w externals =
  tiktoken_encode :: tokenizer
  os_listdir :: "'w \<Rightarrow> pystr list"
  os_isfile :: "'w \<Rightarrow> pystr \<Rightarrow> bool"
  os_getmtime :: "'w \<Rightarrow> pystr \<Rightarrow> nat"
  pdf_pages :: "'w \<Rightarrow> pystr \<Rightarrow> error + pystr list"
  chat_create :: "'w \<Rightarrow> pystr \<Rightarrow> error + pystr"
  time_gmtime :: "'w \<Rightarrow> struct_time"
  os_rename :: "'w \<Rightarrow> pystr \<Rightarrow> pystr \<Rightarrow> 'w option"

text \<open>
  \<open>get_new_filename_from_openai\<close>: an exception of the request leaves the function;
  otherwise the reply is stripped and sanitized.
\<close>

definition get_new_filename_from_openai ::
  "(pystr \<Rightarrow> error + pystr) \<Rightarrow> struct_time \<Rightarrow> pystr \<Rightarrow> error + pystr" where
  "get_new_filename_from_openai create now pdf_content =
     (case create pdf_content of
        Inl e \<Rightarrow> Inl e
      | Inr reply \<Rightarrow> Inr (validate_and_trim_filename now (Some (strip reply))))"

text \<open>
  What the program prints, and how a run of the loop ends: it reaches the end of the
  list, or an exception leaves the function with the rest of the list unvisited.
\<close>

datatype event = Reading pystr | Renamed pystr | RenameError pystr

datatype 'w outcome = Finished 'w "event list" | Raised error 'w "event list"

text \<open>
  The \<open>for\<close> loop of \<open>rename_pdfs_in_directory\<close>.  Only \<open>os.rename\<close> is inside a
  \<open>try\<close>.  \<open>None\<close> is a run that never leaves \<open>content_token_cut\<close>.
\<close>

fun rename_loop :: "'w externals \<Rightarrow> pystr list \<Rightarrow> 'w \<Rightarrow> event list \<Rightarrow> 'w outcome option" where
  "rename_loop X [] w out = Some (Finished w out)"
| "rename_loop X (filename # files) w out =
     (if is_pdf filename then
        (case pdf_pages X w filename of
           Inl e \<Rightarrow> Some (Raised e w (out @ [Reading filename]))
         | Inr pages \<Rightarrow>
             (case pdfs_to_text_string (tiktoken_encode X) pages of
                None \<Rightarrow> None
              | Some (Inl e) \<Rightarrow> Some (Raised e w (out @ [Reading filename]))
              | Some (Inr pdf_content) \<Rightarrow>
                  (case get_new_filename_from_openai (chat_create X w) (time_gmtime X w)
                          pdf_content of
                     Inl e \<Rightarrow> Some (Raised e w (out @ [Reading filename]))
                   | Inr new_file_name \<Rightarrow>
                       (let final_name = deduplicate new_file_name (existing_pdfs (os_listdir X w));
                            new_filepath = final_name @ py ''.pdf''
                        in case os_rename X w filename new_filepath of
                             None \<Rightarrow>
                               rename_loop X files w
                                 (out @ [Reading filename, RenameError filename])
                           | Some w' \<Rightarrow>
                               rename_loop X files w'
                                 (out @ [Reading filename, Renamed new_filepath])))))
      else rename_loop X files w out)"

text \<open>
  \<open>list.sort(key, reverse=True)\<close> is stable: it orders by descending key and keeps the
  order of entries with equal keys.
\<close>

definition rename_pdfs_in_directory :: "'w externals \<Rightarrow> 'w \<Rightarrow> 'w outcome option" where
  "rename_pdfs_in_directory X w =
     (let files = filter (os_isfile X w) (os_listdir X w);
          files = rev (sort_key (os_getmtime X w) (rev files))
      in rename_loop X files w [])"

text \<open>
  A world to run the loop on: the state is the list of names in the directory, every
  entry is a file with the same modification time, the first page of \<open>a.pdf\<close> reads
  \<open>A\<close> and that of any other file \<open>Invoice 4521 from Acme Corp\<close>, the rename replaces the
  source name by the target name, and the chat completion raises for the prompt \<open>A\<close> and
  replies \<open>Acme_Invoice_4521\<close> to any other.
\<close>

definition sample_world :: "pystr list externals" where
  "sample_world =
     \<lparr>tiktoken_encode = char_tokens,
      os_listdir = (\<lambda>w. w),
      os_isfile = (\<lambda>w f. True),
      os_getmtime = (\<lambda>w f. 0),
      pdf_pages = (\<lambda>w f. if f = py ''a.pdf'' then Inr [py ''A'']
                           else Inr [py ''Invoice 4521 from Acme Corp'']),
      chat_create = (\<lambda>w c. if c = py ''A'' then Inl GenerationError
                             else Inr (py ''Acme_Invoice_4521'')),
      time_gmtime = (\<lambda>w. sample_time),
      os_rename = (\<lambda>w src dst. Some (dst # removeAll dst (removeAll src w)))\<rparr>"

section \<open>Properties of the budgeting loop\<close>

lemma shrink_length: "length (shrink c) = (length c * 9) div 10"
  by (simp add: shrink_def new_length_def)

lemma shrink_less: "c \<noteq> [] \<Longrightarrow> length (shrink c) < length c"
  by (cases c) (simp_all add: shrink_length)

lemma shrink_Nil: "shrink [] = []"
  by (simp add: shrink_def)

lemma new_length_floor: "int (new_length c) = \<lfloor>0.9 * real (length c)\<rfloor>"
proof -
  have "\<lfloor>0.9 * real (length c)\<rfloor> = \<lfloor>real (length c * 9) / real 10\<rfloor>"
    by (simp add: mult.commute)
  also have "\<dots> = int ((length c * 9) div 10)"
    by (simp only: floor_divide_of_nat_eq)
  finally show ?thesis by (simp add: new_length_def)
qed

lemma take_shrink: "take k (shrink c) = take (min k (new_length c)) c"
  by (simp add: shrink_def)

lemma contains_head: "contains s (x # sub) \<Longrightarrow> x \<in> set s"
  by (induction s) auto

text \<open>Every special token starts with \<open><\<close>: a text without it is tokenized.\<close>

lemma char_tokens_plain:
  assumes "60 \<notin> set s"
  shows "char_tokens s = Inr s"
proof -
  have "\<not> contains s (60 # sub)" for sub
    using assms contains_head by blast
  then show ?thesis by (simp add: char_tokens_def special_tokens_def py_def)
qed

lemma char_tokens_Nil: "char_tokens [] = Inr []"
  by (simp add: char_tokens_plain)


text \<open>
  The loop returns as soon as the empty string is within the budget: by induction on the
  length of the content, which every pass over a non-empty string makes smaller.
\<close>

lemma content_token_cut_returns:
  assumes e: "encode [] = Inr []" and m: "0 \<le> m"
  shows "\<exists>r. content_token_cut encode c n m = Some r"
proof (induction "length c" arbitrary: c n rule: less_induct)
  case less
  show ?case
  proof (cases "n > m")
    case False
    then show ?thesis by (subst content_token_cut.simps) simp
  next
    case over: True
    show ?thesis
    proof (cases "c = []")
      case True
      have "content_token_cut encode [] 0 m = Some (Inr [])"
        using m by (subst content_token_cut.simps) simp
      with True over e show ?thesis
        by (subst content_token_cut.simps) (simp add: shrink_Nil)
    next
      case False
      show ?thesis
      proof (cases "encode (shrink c)")
        case (Inl x)
        with over show ?thesis by (subst content_token_cut.simps) simp
      next
        case (Inr ts)
        from less [OF shrink_less [OF False], of "int (length ts)"] over Inr show ?thesis
          by (subst content_token_cut.simps) simp
      qed
    qed
  qed
qed

text \<open>
  What the loop returns, whenever it returns: by the induction rule of the fixed point.
  A string it returns is the content itself, or a prefix of it whose token count is
  within the budget; an exception is one the tokenizer raised on a prefix.
\<close>

lemma content_token_cut_result:
  assumes r: "content_token_cut encode c n m = Some r"
  shows "case r of
           Inr y \<Rightarrow> (n \<le> m \<and> y = c) \<or>
                    (m < n \<and> (\<exists>k. y = take k c) \<and> (\<exists>ts. encode y = Inr ts \<and> int (length ts) \<le> m))
         | Inl e \<Rightarrow> m < n \<and> (\<exists>k. encode (take k c) = Inl e)"
  using r
proof (induction rule: content_token_cut.raw_induct [rotated 1, consumes 1])
  case (1 f encode c n m r)
  show ?case
  proof (cases "n > m")
    case False
    with 1 show ?thesis by auto
  next
    case over: True
    show ?thesis
    proof (cases "encode (shrink c)")
      case (Inl e)
      with 1 over have "r = Inl e" by simp
      moreover from Inl have "\<exists>k. encode (take k c) = Inl e"
        by (intro exI [of _ "new_length c"]) (simp add: shrink_def)
      ultimately show ?thesis using over by simp
    next
      case (Inr ts)
      with 1 over have "f encode (shrink c) (int (length ts)) m = Some r" by simp
      from 1(1) [OF this] have ih: "case r of
          Inr y \<Rightarrow> (int (length ts) \<le> m \<and> y = shrink c) \<or>
            (m < int (length ts) \<and> (\<exists>k. y = take k (shrink c)) \<and>
             (\<exists>ts. encode y = Inr ts \<and> int (length ts) \<le> m))
        | Inl e \<Rightarrow> m < int (length ts) \<and> (\<exists>k. encode (take k (shrink c)) = Inl e)" .
      show ?thesis
      proof (cases r)
        case (Inl e)
        with ih obtain k where "encode (take k (shrink c)) = Inl e" by auto
        then have "encode (take (min k (new_length c)) c) = Inl e"
          by (simp only: take_shrink)
        then have "\<exists>k. encode (take k c) = Inl e" by (rule exI)
        with Inl over show ?thesis by simp
      next
        case res: (Inr y)
        from ih res consider
          (fits) "int (length ts) \<le> m" "y = shrink c"
          | (cut) "\<exists>k. y = take k (shrink c)"
              "\<exists>ts. encode y = Inr ts \<and> int (length ts) \<le> m"
          by auto
        then have "(\<exists>k. y = take k c) \<and> (\<exists>ts. encode y = Inr ts \<and> int (length ts) \<le> m)"
        proof cases
          case fits
          with Inr show ?thesis by (auto simp: shrink_def)
        next
          case cut
          then show ?thesis by (auto simp: take_shrink)
        qed
        with res over show ?thesis by simp
      qed
    qed
  qed
qed







text \<open>
  C4: the shrink loop returns for every content and every budget above zero, with a
  string when the tokenizer raises on no prefix of the content.  A pass over a non-empty
  content makes it strictly shorter, its new length being the floor of nine tenths of the
  old one, and the empty content has no token, so the loop exits there without a guard of
  its own.
\<close>

theorem content_token_cut_terminates:
  assumes "encode [] = Inr []" and "0 < m"
  shows "(c \<noteq> [] \<longrightarrow> length (shrink c) < length c) \<and>
         int (length (shrink c)) = \<lfloor>0.9 * real (length c)\<rfloor> \<and>
         shrink [] = [] \<and> (\<exists>ts. encode [] = Inr ts \<and> int (length ts) \<le> m) \<and>
         (\<exists>r. content_token_cut encode c n m = Some r) \<and>
         ((\<forall>k. \<exists>ts. encode (take k c) = Inr ts) \<longrightarrow>
            (\<exists>y. content_token_cut encode c n m = Some (Inr y)))"
proof -
  from assms have m: "0 \<le> m" by simp
  have fl: "int (length (shrink c)) = \<lfloor>0.9 * real (length c)\<rfloor>"
    using new_length_floor [of c] by (simp add: shrink_length new_length_def)
  from content_token_cut_returns [of encode m c n, OF assms(1) m]
  obtain r where r: "content_token_cut encode c n m = Some r" by blast
  have "\<exists>y. content_token_cut encode c n m = Some (Inr y)"
    if ok: "\<forall>k. \<exists>ts. encode (take k c) = Inr ts"
  proof (cases r)
    case (Inl e)
    with content_token_cut_result [OF r] obtain k where "encode (take k c) = Inl e" by auto
    moreover from ok obtain ts where "encode (take k c) = Inr ts" by blast
    ultimately show ?thesis by simp
  next
    case (Inr y)
    with r show ?thesis by simp
  qed
  with fl r assms show ?thesis
    by (simp add: shrink_less shrink_Nil)
qed

theorem content_token_cut_terminates_witness:
  "char_tokens [] = Inr [] \<and> (0::int) < 3 \<and>
   content_token_cut char_tokens (py ''0123456789'') 10 3 = Some (Inr (py ''012'')) \<and>
   length (shrink (py ''0123456789'')) < length (py ''0123456789'')"
proof -
  have pos: "(0::int) < 3" by simp
  have run: "content_token_cut char_tokens (py ''0123456789'') 10 3 = Some (Inr (py ''012''))"
    by (simp add: content_token_cut.simps char_tokens_plain shrink_def new_length_def py_def)
  have ne: "py ''0123456789'' \<noteq> []" by (simp add: py_def)
  from content_token_cut_terminates [of char_tokens 3 "py ''0123456789''" 10,
      OF char_tokens_Nil pos] ne
  have "length (shrink (py ''0123456789'')) < length (py ''0123456789'')" by blast
  with char_tokens_Nil pos run show ?thesis by blast
qed




section \<open>Properties of the sanitizer\<close>

lemma decimal_digits: "list_all digit_char (decimal n)"
proof (induction n rule: decimal.induct)
  case (1 n)
  have "n mod 10 < 10" by simp
  then have last: "digit_char (48 + n mod 10)"
    unfolding digit_char_def by linarith
  show ?case
  proof (cases "n < 10")
    case True
    then show ?thesis by (subst decimal.simps) (simp add: digit_char_def)
  next
    case False
    with 1 last show ?thesis by (subst decimal.simps) simp
  qed
qed

lemma decimal_length_1: "n < 10 \<Longrightarrow> length (decimal n) = 1"
  by (subst decimal.simps) simp

lemma decimal_length_2: "10 \<le> n \<Longrightarrow> n < 100 \<Longrightarrow> length (decimal n) = 2"
  by (subst decimal.simps) (simp add: decimal_length_1)

lemma decimal_length_3: "100 \<le> n \<Longrightarrow> n < 1000 \<Longrightarrow> length (decimal n) = 3"
  by (subst decimal.simps) (simp add: decimal_length_2)

lemma decimal_length_4: "1000 \<le> n \<Longrightarrow> n \<le> 9999 \<Longrightarrow> length (decimal n) = 4"
  by (subst decimal.simps) (simp add: decimal_length_3)

lemma zero_pad_digits: "list_all digit_char s \<Longrightarrow> list_all digit_char (zero_pad w s)"
  by (auto simp: zero_pad_def list_all_iff digit_char_def)

lemma two_digits: "n < 100 \<Longrightarrow> length (zero_pad 2 (decimal n)) = 2"
proof (cases "n < 10")
  case True
  then show ?thesis by (simp add: zero_pad_def decimal_length_1)
next
  case False
  assume "n < 100"
  with False show ?thesis by (simp add: zero_pad_def decimal_length_2)
qed

lemma strftime_digits: "list_all digit_char (strftime t)"
  by (simp add: strftime_def decimal_digits zero_pad_digits)

lemma strftime_length:
  assumes "gmtime_range t"
  shows "length (strftime t) = 14"
proof -
  from assms have "length (decimal (tm_year t)) = 4"
    by (simp add: gmtime_range_def decimal_length_4)
  moreover from assms have "length (zero_pad 2 (decimal (tm_mon t))) = 2"
    "length (zero_pad 2 (decimal (tm_mday t))) = 2"
    "length (zero_pad 2 (decimal (tm_hour t))) = 2"
    "length (zero_pad 2 (decimal (tm_min t))) = 2"
    "length (zero_pad 2 (decimal (tm_sec t))) = 2"
    by (simp_all add: gmtime_range_def two_digits)
  ultimately show ?thesis by (simp add: strftime_def)
qed

lemma digit_name_char: "digit_char c \<Longrightarrow> name_char c"
  by (simp add: digit_char_def name_char_def)

lemma empty_file_prefix:
  "length (py ''empty_file_'') = 11" "list_all name_char (py ''empty_file_'')"
  by (simp_all add: py_def name_char_def)

lemma fallback_name:
  assumes "gmtime_range now"
  shows "length (py ''empty_file_'' @ strftime now) = 25"
    and "list_all name_char (py ''empty_file_'' @ strftime now)"
proof -
  show "length (py ''empty_file_'' @ strftime now) = 25"
    using strftime_length [OF assms] by (simp add: empty_file_prefix)
  have "list_all name_char (strftime now)"
    using strftime_digits [of now] by (simp add: list_all_iff digit_name_char)
  then show "list_all name_char (py ''empty_file_'' @ strftime now)"
    by (simp add: empty_file_prefix)
qed

lemma space_not_name_char: "py_isspace c \<Longrightarrow> \<not> name_char c"
  unfolding py_isspace_def name_char_def by linarith

lemma filter_spaces: "list_all py_isspace s \<Longrightarrow> filter name_char s = []"
  by (induction s) (simp_all add: space_not_name_char)

lemma validate_cases:
  "validate_and_trim_filename now c =
     (case c of
        None \<Rightarrow> py ''empty_file_'' @ strftime now
      | Some s \<Rightarrow> if filter name_char s = [] then py ''empty_file_'' @ strftime now
                  else take 50 (filter name_char s))"
  by (cases c) (auto simp: validate_and_trim_filename_def Let_def)

lemma sample_time_range: "gmtime_range sample_time"
  by (simp add: gmtime_range_def sample_time_def)

lemma sample_time_stamp: "strftime sample_time = py ''20240309170500''"
  by code_simp

text \<open>
  C2: for every candidate, \<open>None\<close> included, the sanitized name is non-empty, has at most
  50 characters and consists of letters, digits and underscores only.  The clock reading
  is one of \<open>time.gmtime()\<close> in a year of four digits.
\<close>

theorem validate_and_trim_filename_safe:
  assumes "gmtime_range now"
  shows "validate_and_trim_filename now c \<noteq> [] \<and>
         length (validate_and_trim_filename now c) \<le> 50 \<and>
         list_all name_char (validate_and_trim_filename now c)"
proof -
  let ?fallback = "py ''empty_file_'' @ strftime now"
  from fallback_name [OF assms]
  have fb: "?fallback \<noteq> [] \<and> length ?fallback \<le> 50 \<and> list_all name_char ?fallback"
    by auto
  show ?thesis
  proof (cases c)
    case None
    with fb show ?thesis by (simp add: validate_cases)
  next
    case (Some s)
    show ?thesis
    proof (cases "filter name_char s = []")
      case True
      with Some fb show ?thesis by (simp add: validate_cases)
    next
      case False
      have "list_all name_char (take 50 (filter name_char s))"
        by (auto simp: list_all_iff dest: in_set_takeD)
      with Some False show ?thesis by (simp add: validate_cases)
    qed
  qed
qed

theorem validate_and_trim_filename_safe_witness:
  "gmtime_range sample_time \<and>
   validate_and_trim_filename sample_time (Some (py ''Tax return (2023), final!'')) =
     py ''Taxreturn2023final'' \<and>
   validate_and_trim_filename sample_time None = py ''empty_file_20240309170500'' \<and>
   length (validate_and_trim_filename sample_time None) \<le> 50 \<and>
   list_all name_char (validate_and_trim_filename sample_time None)"
proof -
  have a: "validate_and_trim_filename sample_time (Some (py ''Tax return (2023), final!'')) =
      py ''Taxreturn2023final''"
    by (simp add: validate_and_trim_filename_def py_def name_char_def)
  have b: "validate_and_trim_filename sample_time None = py ''empty_file_20240309170500''"
    by (simp add: validate_and_trim_filename_def sample_time_stamp py_def)
  from validate_and_trim_filename_safe [OF sample_time_range, of None] a b sample_time_range
  show ?thesis by simp
qed

lemma decimal_one: "n < 10 \<Longrightarrow> decimal n = [48 + n]"
  by (subst decimal.simps) simp

lemma decimal_two:
  assumes "10 \<le> n" and "n < 100"
  shows "decimal n = [48 + n div 10, 48 + n mod 10]"
  using assms by (subst decimal.simps) (simp add: decimal_one)

lemma decimal_three:
  assumes "100 \<le> n" and "n < 1000"
  shows "decimal n = [48 + n div 100, 48 + n div 10 mod 10, 48 + n mod 10]"
proof -
  have "n div 10 div 10 = n div 100" by (simp add: div_mult2_eq)
  with assms show ?thesis by (subst decimal.simps) (simp add: decimal_two)
qed

lemma decimal_four:
  assumes "1000 \<le> n" and "n \<le> 9999"
  shows "decimal n = [48 + n div 1000, 48 + n div 100 mod 10, 48 + n div 10 mod 10, 48 + n mod 10]"
proof -
  have "n div 10 div 100 = n div 1000" "n div 10 div 10 = n div 100"
    by (simp_all add: div_mult2_eq)
  with assms show ?thesis by (subst decimal.simps) (simp add: decimal_three)
qed

lemma zero_pad_two:
  assumes "n < 100"
  shows "zero_pad 2 (decimal n) = [48 + n div 10, 48 + n mod 10]"
proof (cases "n < 10")
  case True
  then show ?thesis by (simp add: zero_pad_def decimal_one)
next
  case False
  with assms show ?thesis by (simp add: zero_pad_def decimal_two)
qed

text \<open>
  The timestamp digit by digit: four digits of the year, then two each of the month, the
  day, the hour, the minute and the second of the clock reading.
\<close>

lemma strftime_fields:
  assumes "gmtime_range t"
  shows "strftime t =
     [48 + tm_year t div 1000, 48 + tm_year t div 100 mod 10, 48 + tm_year t div 10 mod 10,
      48 + tm_year t mod 10,
      48 + tm_mon t div 10, 48 + tm_mon t mod 10,
      48 + tm_mday t div 10, 48 + tm_mday t mod 10,
      48 + tm_hour t div 10, 48 + tm_hour t mod 10,
      48 + tm_min t div 10, 48 + tm_min t mod 10,
      48 + tm_sec t div 10, 48 + tm_sec t mod 10]"
proof -
  from assms have "decimal (tm_year t) =
      [48 + tm_year t div 1000, 48 + tm_year t div 100 mod 10, 48 + tm_year t div 10 mod 10,
       48 + tm_year t mod 10]"
    by (simp add: gmtime_range_def decimal_four)
  moreover from assms have
    "zero_pad 2 (decimal (tm_mon t)) = [48 + tm_mon t div 10, 48 + tm_mon t mod 10]"
    "zero_pad 2 (decimal (tm_mday t)) = [48 + tm_mday t div 10, 48 + tm_mday t mod 10]"
    "zero_pad 2 (decimal (tm_hour t)) = [48 + tm_hour t div 10, 48 + tm_hour t mod 10]"
    "zero_pad 2 (decimal (tm_min t)) = [48 + tm_min t div 10, 48 + tm_min t mod 10]"
    "zero_pad 2 (decimal (tm_sec t)) = [48 + tm_sec t div 10, 48 + tm_sec t mod 10]"
    by (simp_all add: gmtime_range_def zero_pad_two)
  ultimately show ?thesis by (simp add: strftime_def)
qed

text \<open>
  C5: a candidate that is \<open>None\<close>, empty, or left empty by the removal of the other
  characters (so every candidate of white space only) gets the name \<open>empty_file_\<close>
  followed by the UTC time of the clock reading as 14 decimal digits: the four digits of
  its year, then two digits each of its month, day, hour, minute and second, zero-padded.
\<close>

theorem validate_and_trim_filename_fallback:
  assumes "gmtime_range now"
    and "c = None \<or> c = Some [] \<or> (\<exists>s. c = Some s \<and> (filter name_char s = [] \<or> list_all py_isspace s))"
  shows "validate_and_trim_filename now c =
           py ''empty_file_'' @
           [48 + tm_year now div 1000, 48 + tm_year now div 100 mod 10,
            48 + tm_year now div 10 mod 10, 48 + tm_year now mod 10,
            48 + tm_mon now div 10, 48 + tm_mon now mod 10,
            48 + tm_mday now div 10, 48 + tm_mday now mod 10,
            48 + tm_hour now div 10, 48 + tm_hour now mod 10,
            48 + tm_min now div 10, 48 + tm_min now mod 10,
            48 + tm_sec now div 10, 48 + tm_sec now mod 10] \<and>
         validate_and_trim_filename now c = py ''empty_file_'' @ strftime now \<and>
         length (strftime now) = 14 \<and> list_all digit_char (strftime now)"
proof -
  from assms(2) have "validate_and_trim_filename now c = py ''empty_file_'' @ strftime now"
    by (auto simp: validate_cases filter_spaces)
  with strftime_length [OF assms(1)] strftime_digits [of now] strftime_fields [OF assms(1)]
  show ?thesis by simp
qed

theorem validate_and_trim_filename_fallback_witness:
  "gmtime_range sample_time \<and> list_all py_isspace (py ''   '') \<and>
   validate_and_trim_filename sample_time (Some (py ''   '')) = py ''empty_file_20240309170500'' \<and>
   validate_and_trim_filename sample_time (Some []) = py ''empty_file_20240309170500'' \<and>
   validate_and_trim_filename sample_time None = py ''empty_file_20240309170500'' \<and>
   gmtime_range \<lparr>tm_year = 1999, tm_mon = 12, tm_mday = 31, tm_hour = 23, tm_min = 59,
     tm_sec = 58\<rparr> \<and>
   validate_and_trim_filename
     \<lparr>tm_year = 1999, tm_mon = 12, tm_mday = 31, tm_hour = 23, tm_min = 59, tm_sec = 58\<rparr>
     None = py ''empty_file_19991231235958''"
proof -
  let ?eve = "\<lparr>tm_year = 1999, tm_mon = 12, tm_mday = 31, tm_hour = 23, tm_min = 59,
     tm_sec = 58\<rparr>"
  have sp: "list_all py_isspace (py ''   '')"
    by (simp add: py_def py_isspace_def)
  have eve: "gmtime_range ?eve"
    by (simp add: gmtime_range_def)
  have a: "validate_and_trim_filename sample_time (Some (py ''   '')) =
      py ''empty_file_20240309170500''"
    using validate_and_trim_filename_fallback [OF sample_time_range, of "Some (py ''   '')"] sp
    by (simp add: sample_time_def py_def)
  have b: "validate_and_trim_filename sample_time (Some []) = py ''empty_file_20240309170500''"
    using validate_and_trim_filename_fallback [OF sample_time_range, of "Some []"]
    by (simp add: sample_time_def py_def)
  have c: "validate_and_trim_filename sample_time None = py ''empty_file_20240309170500''"
    using validate_and_trim_filename_fallback [OF sample_time_range, of None]
    by (simp add: sample_time_def py_def)
  have d: "validate_and_trim_filename ?eve None = py ''empty_file_19991231235958''"
    using validate_and_trim_filename_fallback [OF eve, of None]
    by (simp add: py_def)
  from sample_time_range sp a b c eve d show ?thesis by (intro conjI)
qed

text \<open>
  C7: the sanitizer deletes the characters outside letters, digits and underscore, puts
  nothing in their place, keeps the others as they are and in their order, and keeps the
  first 50 of them.  \<open>Hello, World! 2024.pdf-report\<close> gives \<open>HelloWorld2024pdfreport\<close>,
  and a candidate of 60 letters and digits gives its first 50 characters.
\<close>

theorem validate_and_trim_filename_deletes:
  "(filter name_char s \<noteq> [] \<longrightarrow>
      validate_and_trim_filename now (Some s) = take 50 (filter name_char s)) \<and>
   validate_and_trim_filename now (Some (py ''Hello, World! 2024.pdf-report'')) =
      py ''HelloWorld2024pdfreport'' \<and>
   (length s = 60 \<and>
    list_all (\<lambda>c. (65 \<le> c \<and> c \<le> 90) \<or> (97 \<le> c \<and> c \<le> 122) \<or> (48 \<le> c \<and> c \<le> 57)) s \<longrightarrow>
      validate_and_trim_filename now (Some s) = take 50 s \<and>
      length (validate_and_trim_filename now (Some s)) = 50)"
proof -
  have ex: "validate_and_trim_filename now (Some (py ''Hello, World! 2024.pdf-report'')) =
      py ''HelloWorld2024pdfreport''"
    by (simp add: validate_and_trim_filename_def py_def name_char_def)
  have long: "validate_and_trim_filename now (Some s) = take 50 s \<and>
      length (validate_and_trim_filename now (Some s)) = 50"
    if len: "length s = 60"
      and an: "list_all (\<lambda>c. (65 \<le> c \<and> c \<le> 90) \<or> (97 \<le> c \<and> c \<le> 122) \<or> (48 \<le> c \<and> c \<le> 57)) s"
  proof -
    from an have "\<forall>c\<in>set s. name_char c"
      by (auto simp: list_all_iff name_char_def)
    then have keep: "filter name_char s = s" by (simp add: filter_id_conv)
    from len have "s \<noteq> []" by auto
    with keep len show ?thesis by (simp add: validate_cases)
  qed
  show ?thesis using ex long by (simp add: validate_cases)
qed

theorem validate_and_trim_filename_deletes_witness:
  "length (py ''0123456789abcdefghijABCDEFGHIJ0123456789klmnopqrstKLMNOPQRST'') = 60 \<and>
   validate_and_trim_filename sample_time
     (Some (py ''0123456789abcdefghijABCDEFGHIJ0123456789klmnopqrstKLMNOPQRST'')) =
     py ''0123456789abcdefghijABCDEFGHIJ0123456789klmnopqrst'' \<and>
   filter name_char (py ''a b_c'') \<noteq> [] \<and>
   validate_and_trim_filename sample_time (Some (py ''a b_c'')) = py ''ab_c''"
proof -
  let ?s = "py ''0123456789abcdefghijABCDEFGHIJ0123456789klmnopqrstKLMNOPQRST''"
  let ?t = "py ''a b_c''"
  have len: "length ?s = 60" by (simp add: py_def)
  have an: "list_all (\<lambda>c. (65 \<le> c \<and> c \<le> 90) \<or> (97 \<le> c \<and> c \<le> 122) \<or> (48 \<le> c \<and> c \<le> 57)) ?s"
    by (simp add: py_def)
  have pre: "take 50 ?s = py ''0123456789abcdefghijABCDEFGHIJ0123456789klmnopqrst''"
    by (simp add: py_def)
  have f: "filter name_char ?t = py ''ab_c''"
    by (simp add: py_def name_char_def)
  have ne: "filter name_char ?t \<noteq> []"
    by (simp add: py_def name_char_def)
  have "validate_and_trim_filename sample_time (Some ?s) = take 50 ?s"
    using validate_and_trim_filename_deletes [of ?s sample_time] len an by blast
  then have long: "validate_and_trim_filename sample_time (Some ?s) =
      py ''0123456789abcdefghijABCDEFGHIJ0123456789klmnopqrst''"
    by (simp only: pre)
  have "validate_and_trim_filename sample_time (Some ?t) = take 50 (filter name_char ?t)"
    using validate_and_trim_filename_deletes [of ?t sample_time] ne by blast
  also have "\<dots> = py ''ab_c''" by (simp only: f) (simp add: py_def)
  finally have short: "validate_and_trim_filename sample_time (Some ?t) = py ''ab_c''" .
  from len long ne short show ?thesis by (intro conjI)
qed

section \<open>Properties of the collision step and of the loop\<close>

lemma lower_append: "lower (a @ b) = lower a @ lower b"
  by (simp add: lower_def)

lemma lower_pdf: "lower (py ''.pdf'') = py ''.pdf''"
  by (simp add: lower_def py_def)

lemma endswith_append: "endswith (a @ s) s"
  by (simp add: endswith_def)

lemma is_pdf_append: "is_pdf (base @ py ''.pdf'')"
  by (simp add: is_pdf_def lower_append lower_pdf endswith_append)

lemma existing_pdfs_member:
  "(base @ py ''.pdf'' \<in> existing_pdfs listing) = (base @ py ''.pdf'' \<in> set listing)"
  by (simp add: existing_pdfs_def is_pdf_append)

lemma deduplicate_cases:
  "deduplicate base existing = base \<or> deduplicate base existing = base @ py ''_01''"
  by (simp add: deduplicate_def)

lemma suffix_01_length: "length (py ''_01'') = 3"
  by (simp add: py_def)

lemma validate_length:
  assumes "gmtime_range now"
  shows "length (validate_and_trim_filename now c) \<le> 50"
proof (cases c)
  case None
  with fallback_name(1) [OF assms] show ?thesis by (simp add: validate_cases)
next
  case (Some s)
  with fallback_name(1) [OF assms] show ?thesis by (simp add: validate_cases)
qed

lemma strip_blank: "strip s = [] \<longleftrightarrow> list_all py_isspace s"
proof
  assume "list_all py_isspace s"
  then show "strip s = []"
    by (auto simp: strip_def list_all_iff dest: set_dropWhileD)
next
  assume "strip s = []"
  then have "dropWhile py_isspace (rev (dropWhile py_isspace s)) = []"
    by (simp add: strip_def)
  then have all: "\<forall>c\<in>set (dropWhile py_isspace s). py_isspace c"
    by (simp add: dropWhile_eq_Nil_conv)
  have "dropWhile py_isspace s = []"
  proof (rule ccontr)
    assume ne: "dropWhile py_isspace s \<noteq> []"
    then have "\<not> py_isspace (hd (dropWhile py_isspace s))" by (rule hd_dropWhile)
    moreover from ne have "hd (dropWhile py_isspace s) \<in> set (dropWhile py_isspace s)"
      by simp
    ultimately show False using all by blast
  qed
  then show "list_all py_isspace s" by (simp add: dropWhile_eq_Nil_conv list_all_iff)
qed

lemma placeholder_length: "length placeholder = 45"
  by (simp add: placeholder_def py_def)

text \<open>
  C3: the collision step appends \<open>_01\<close> once when the name with \<open>.pdf\<close> is in the set of
  existing names and returns the name unchanged otherwise; it looks no further, also when
  the name with the suffix is in the set too.  The extension is the literal \<open>.pdf\<close> of the
  code.  With a directory listing the test is membership of the name in the listing.
\<close>

theorem deduplicate_single_suffix:
  "(base @ py ''.pdf'' \<in> existing \<longrightarrow> deduplicate base existing = base @ py ''_01'') \<and>
   (base @ py ''.pdf'' \<notin> existing \<longrightarrow> deduplicate base existing = base) \<and>
   (base @ py ''.pdf'' \<in> existing \<and> (base @ py ''_01'') @ py ''.pdf'' \<in> existing \<longrightarrow>
      deduplicate base existing = base @ py ''_01'') \<and>
   (base @ py ''.pdf'' \<in> existing_pdfs listing) = (base @ py ''.pdf'' \<in> set listing) \<and>
   deduplicate (py ''report'') {py ''report.pdf''} = py ''report_01'' \<and>
   deduplicate (py ''report'') {py ''other.pdf''} = py ''report''"
proof -
  have a: "deduplicate (py ''report'') {py ''report.pdf''} = py ''report_01''"
    by (simp add: deduplicate_def py_def)
  have b: "deduplicate (py ''report'') {py ''other.pdf''} = py ''report''"
    by (simp add: deduplicate_def py_def)
  show ?thesis
    using a b existing_pdfs_member [of base listing] by (simp add: deduplicate_def)
qed

theorem deduplicate_single_suffix_witness:
  "py ''report'' @ py ''.pdf'' \<in> {py ''report.pdf'', py ''report_01.pdf''} \<and>
   (py ''report'' @ py ''_01'') @ py ''.pdf'' \<in> {py ''report.pdf'', py ''report_01.pdf''} \<and>
   deduplicate (py ''report'') {py ''report.pdf'', py ''report_01.pdf''} = py ''report_01'' \<and>
   py ''notes'' @ py ''.pdf'' \<notin> {py ''report.pdf'', py ''report_01.pdf''} \<and>
   deduplicate (py ''notes'') {py ''report.pdf'', py ''report_01.pdf''} = py ''notes''"
proof -
  let ?E = "{py ''report.pdf'', py ''report_01.pdf''}"
  have m1: "py ''report'' @ py ''.pdf'' \<in> ?E" by (simp add: py_def)
  have m2: "(py ''report'' @ py ''_01'') @ py ''.pdf'' \<in> ?E" by (simp add: py_def)
  have m3: "py ''notes'' @ py ''.pdf'' \<notin> ?E" by (simp add: py_def)
  have cat: "py ''report'' @ py ''_01'' = py ''report_01''" by (simp add: py_def)
  have "deduplicate (py ''report'') ?E = py ''report'' @ py ''_01''"
    using deduplicate_single_suffix [of "py ''report''" ?E "[]"] m1 m2 by blast
  then have r1: "deduplicate (py ''report'') ?E = py ''report_01''" by (simp only: cat)
  have r2: "deduplicate (py ''notes'') ?E = py ''notes''"
    using deduplicate_single_suffix [of "py ''notes''" ?E "[]"] m3 by blast
  from m1 m2 r1 m3 r2 show ?thesis by (intro conjI)
qed

text \<open>
  C8: when the text of the first page is empty or white space only, or there is no page,
  the placeholder takes its place before any token is counted: the budgeting step runs on
  the placeholder.  The placeholder has 45 characters, and when the tokenizer gives it a
  token count within the configured budget of 15000 it is returned whole.
\<close>

theorem blank_content_placeholder:
  assumes "list_all py_isspace content"
    and "encode placeholder = Inr ts" and "int (length ts) \<le> max_length"
  shows "pdfs_to_text_string encode (content # rest) =
           fit_to_budget encode placeholder max_length \<and>
         pdfs_to_text_string encode (content # rest) = Some (Inr placeholder) \<and>
         pdfs_to_text_string encode [] = Some (Inr placeholder) \<and>
         placeholder = py ''Content is empty or contains only whitespace.'' \<and>
         max_length = 15000"
proof -
  from assms(1) have blank: "strip content = []" by (simp add: strip_blank)
  have none: "strip [] = []" by (simp add: strip_def)
  from assms(2,3) have fit: "fit_to_budget encode placeholder max_length = Some (Inr placeholder)"
    by (simp add: fit_to_budget_def)
  from blank none fit show ?thesis
    by (simp add: pdfs_to_text_string_def placeholder_def max_length_def)
qed

theorem blank_content_placeholder_witness:
  "list_all py_isspace (py ''   '') \<and>
   char_tokens placeholder = Inr placeholder \<and> int (length placeholder) \<le> max_length \<and>
   pdfs_to_text_string char_tokens [py ''   '', py ''second page''] = Some (Inr placeholder)"
proof -
  have sp: "list_all py_isspace (py ''   '')"
    by (simp add: py_def py_isspace_def)
  have "60 \<notin> set placeholder"
    by (simp add: placeholder_def py_def)
  then have tok: "char_tokens placeholder = Inr placeholder"
    by (rule char_tokens_plain)
  have short: "int (length placeholder) \<le> max_length"
    by (simp add: placeholder_length max_length_def)
  from blank_content_placeholder [of "py ''   ''" char_tokens placeholder "[py ''second page'']",
      OF sp tok short] sp tok short
  show ?thesis by blast
qed

text \<open>
  C10: the base name of the rename target is the sanitized name or the sanitized name
  followed by \<open>_01\<close>, so it has at most 53 characters, and a sanitized name of 50
  characters that collides gives one of 53: the bound of 50 does not hold for it.
\<close>

theorem final_name_length:
  assumes "gmtime_range now"
  shows "(deduplicate (validate_and_trim_filename now c) existing =
            validate_and_trim_filename now c \<or>
          deduplicate (validate_and_trim_filename now c) existing =
            validate_and_trim_filename now c @ py ''_01'') \<and>
         length (deduplicate (validate_and_trim_filename now c) existing) \<le> 53 \<and>
         length (deduplicate (validate_and_trim_filename now (Some (replicate 50 97)))
                   {replicate 50 97 @ py ''.pdf''}) = 53"
proof -
  let ?s = "validate_and_trim_filename now c"
  have cases: "deduplicate ?s existing = ?s \<or> deduplicate ?s existing = ?s @ py ''_01''"
    by (rule deduplicate_cases)
  from validate_length [OF assms, of c] have "length ?s \<le> 50" .
  with cases have bound: "length (deduplicate ?s existing) \<le> 53"
    by (auto simp: suffix_01_length)
  have keep: "filter name_char (replicate 50 97) = replicate 50 97"
    by (simp add: name_char_def)
  have "validate_and_trim_filename now (Some (replicate 50 97)) = replicate 50 97"
    by (simp add: validate_cases keep)
  then have "length (deduplicate (validate_and_trim_filename now (Some (replicate 50 97)))
      {replicate 50 97 @ py ''.pdf''}) = 53"
    by (simp add: deduplicate_def suffix_01_length)
  with cases bound show ?thesis by blast
qed

theorem final_name_length_witness:
  "gmtime_range sample_time \<and>
   deduplicate (validate_and_trim_filename sample_time (Some (py ''Acme Invoice'')))
     {py ''AcmeInvoice.pdf''} = py ''AcmeInvoice_01'' \<and>
   length (deduplicate (validate_and_trim_filename sample_time (Some (py ''Acme Invoice'')))
     {py ''AcmeInvoice.pdf''}) \<le> 53"
proof -
  have run: "deduplicate (validate_and_trim_filename sample_time (Some (py ''Acme Invoice'')))
      {py ''AcmeInvoice.pdf''} = py ''AcmeInvoice_01''"
    by (simp add: validate_and_trim_filename_def deduplicate_def py_def name_char_def)
  from final_name_length [OF sample_time_range, of "Some (py ''Acme Invoice'')"
      "{py ''AcmeInvoice.pdf''}"] run sample_time_range
  show ?thesis by blast
qed

text \<open>
  The ways a file can fail in the loop.  An exception of the tokenizer or of the chat
  completion leaves the loop: the files after it are not visited.  An exception of the
  rename is caught and printed, and the loop goes on with the next file.
\<close>

lemma tokenizer_failure_leaves_loop:
  assumes "is_pdf f" and "pdf_pages X w f = Inr pages"
    and "pdfs_to_text_string (tiktoken_encode X) pages = Some (Inl e)"
  shows "rename_loop X (f # files) w out = Some (Raised e w (out @ [Reading f]))"
  using assms by simp

lemma generation_failure_leaves_loop:
  assumes "is_pdf f" and "pdf_pages X w f = Inr pages"
    and "pdfs_to_text_string (tiktoken_encode X) pages = Some (Inr content)"
    and "chat_create X w content = Inl e"
  shows "rename_loop X (f # files) w out = Some (Raised e w (out @ [Reading f]))"
  using assms by (simp add: get_new_filename_from_openai_def)

lemma rename_failure_continues:
  assumes "is_pdf f" and "pdf_pages X w f = Inr pages"
    and "pdfs_to_text_string (tiktoken_encode X) pages = Some (Inr content)"
    and "chat_create X w content = Inr reply"
    and "os_rename X w f
           (deduplicate (validate_and_trim_filename (time_gmtime X w) (Some (strip reply)))
              (existing_pdfs (os_listdir X w)) @ py ''.pdf'') = None"
  shows "rename_loop X (f # files) w out =
           rename_loop X files w (out @ [Reading f, RenameError f])"
  using assms by (simp add: get_new_filename_from_openai_def Let_def)

lemma rename_success_continues:
  assumes "is_pdf f" and "pdf_pages X w f = Inr pages"
    and "pdfs_to_text_string (tiktoken_encode X) pages = Some (Inr content)"
    and "chat_create X w content = Inr reply"
    and "os_rename X w f
           (deduplicate (validate_and_trim_filename (time_gmtime X w) (Some (strip reply)))
              (existing_pdfs (os_listdir X w)) @ py ''.pdf'') = Some w'"
  shows "rename_loop X (f # files) w out =
           rename_loop X files w'
             (out @ [Reading f, Renamed
                (deduplicate (validate_and_trim_filename (time_gmtime X w) (Some (strip reply)))
                   (existing_pdfs (os_listdir X w)) @ py ''.pdf'')])"
  using assms by (simp add: get_new_filename_from_openai_def Let_def)

lemma sample_files:
  "rev (sort_key (os_getmtime sample_world w) (rev (filter (os_isfile sample_world w)
      (os_listdir sample_world w)))) = w"
proof -
  have "sort_key (\<lambda>f. 0::nat) xs = xs" for xs :: "pystr list"
    by (induction xs) (simp_all add: insort_is_Cons)
  then show ?thesis by (simp add: sample_world_def)
qed

lemma sample_names_pdf: "is_pdf (py ''a.pdf'')" "is_pdf (py ''b.pdf'')"
  by (simp_all add: is_pdf_def endswith_def lower_def py_def)

lemma sample_batch_aborts:
  "rename_pdfs_in_directory sample_world [py ''a.pdf'', py ''b.pdf''] =
     Some (Raised GenerationError [py ''a.pdf'', py ''b.pdf''] [Reading (py ''a.pdf'')])"
proof -
  let ?w = "[py ''a.pdf'', py ''b.pdf'']"
  have pages: "pdf_pages sample_world ?w (py ''a.pdf'') = Inr [py ''A'']"
    by (simp add: sample_world_def)
  have body: "pdfs_to_text_string (tiktoken_encode sample_world) [py ''A''] =
      Some (Inr (py ''A''))"
    by (simp add: sample_world_def pdfs_to_text_string_def fit_to_budget_def char_tokens_plain
        strip_def py_def py_isspace_def max_length_def)
  have chat: "chat_create sample_world ?w (py ''A'') = Inl GenerationError"
    by (simp add: sample_world_def)
  from generation_failure_leaves_loop [OF sample_names_pdf(1) pages body chat,
      of "[py ''b.pdf'']" "[]"]
  show ?thesis by (simp add: rename_pdfs_in_directory_def sample_files)
qed

lemma sample_single_file:
  "rename_pdfs_in_directory sample_world [py ''b.pdf''] =
     Some (Finished [py ''Acme_Invoice_4521.pdf'']
             [Reading (py ''b.pdf''), Renamed (py ''Acme_Invoice_4521.pdf'')])"
proof -
  let ?w = "[py ''b.pdf'']"
  let ?c = "py ''Invoice 4521 from Acme Corp''"
  let ?r = "py ''Acme_Invoice_4521''"
  have pages: "pdf_pages sample_world ?w (py ''b.pdf'') = Inr [?c]"
    by (simp add: sample_world_def py_def)
  have body: "pdfs_to_text_string (tiktoken_encode sample_world) [?c] = Some (Inr ?c)"
    by (simp add: sample_world_def pdfs_to_text_string_def fit_to_budget_def char_tokens_plain
        strip_def py_def py_isspace_def max_length_def)
  have chat: "chat_create sample_world ?w ?c = Inr ?r"
    by (simp add: sample_world_def py_def)
  have name: "validate_and_trim_filename (time_gmtime sample_world ?w) (Some (strip ?r)) = ?r"
    by (simp add: validate_and_trim_filename_def strip_def py_def py_isspace_def name_char_def)
  have final: "deduplicate ?r (existing_pdfs (os_listdir sample_world ?w)) @ py ''.pdf'' =
      py ''Acme_Invoice_4521.pdf''"
    by (simp add: deduplicate_def existing_pdfs_def sample_world_def py_def)
  have move: "os_rename sample_world ?w (py ''b.pdf'') (py ''Acme_Invoice_4521.pdf'') =
      Some [py ''Acme_Invoice_4521.pdf'']"
    by (simp add: sample_world_def py_def)
  from rename_success_continues [OF sample_names_pdf(2) pages body chat,
      of "[py ''Acme_Invoice_4521.pdf'']" "[]" "[]"] name final move
  show ?thesis by (simp add: rename_pdfs_in_directory_def sample_files)
qed

text \<open>
  C9: in a directory with \<open>a.pdf\<close> and \<open>b.pdf\<close>, where the chat completion raises for
  \<open>a.pdf\<close> and would answer for \<open>b.pdf\<close>, the exception leaves
  \<open>rename_pdfs_in_directory\<close>: nothing is renamed and \<open>b.pdf\<close> is never read, although
  it is renamed when it is alone in the directory.
\<close>

theorem generation_failure_aborts_batch:
  "rename_pdfs_in_directory sample_world [py ''a.pdf'', py ''b.pdf''] =
     Some (Raised GenerationError [py ''a.pdf'', py ''b.pdf''] [Reading (py ''a.pdf'')]) \<and>
   rename_pdfs_in_directory sample_world [py ''b.pdf''] =
     Some (Finished [py ''Acme_Invoice_4521.pdf'']
             [Reading (py ''b.pdf''), Renamed (py ''Acme_Invoice_4521.pdf'')])"
  using sample_batch_aborts sample_single_file by (intro conjI)

end
